theory Spec2Isabelle
  imports Main
begin

section \<open>The field-validation engine of the event planner\<close>

text \<open>
  The validation module (regular-expression constants, the rule combinator \<open>join\<close>,
  the predicate library and the schema aggregator \<open>createValidator\<close>) is embedded
  function by function. JavaScript values are a datatype, a thrown exception is the left
  injection of a sum, and what the code reads from its platform (the wall clock of
  \<open>new Date()\<close>, \<open>Date.parse\<close>, the source text of a built-in function) is an
  environment passed to every rule.
\<close>

subsection \<open>Values\<close>

text \<open>
  Numbers are the safe integers, those of magnitude at most \<open>2^53 - 1\<close>: each is a
  double, and each prints in plain decimal. Fractions, \<open>NaN\<close> and the infinities are
  not modelled.
\<close>

typedef safe_int = "{n :: int. \<bar>n\<bar> \<le> 9007199254740991}"
  morphisms int_of Abs_safe_int
  by (rule exI [of _ 0]) simp

instantiation safe_int :: equal
begin

definition equal_safe_int :: "safe_int \<Rightarrow> safe_int \<Rightarrow> bool" where
  "equal_safe_int a b = (int_of a = int_of b)"

instance
  by standard (simp add: equal_safe_int_def int_of_inject)

end

definition num :: "int \<Rightarrow> safe_int" where
  "num n = Abs_safe_int (if \<bar>n\<bar> \<le> 9007199254740991 then n else 0)"

text \<open>
  Every plain object inherits the properties of \<open>Object.prototype\<close>: eleven functions
  and the accessor \<open>__proto__\<close>, which reads as \<open>Object.prototype\<close> itself. A record
  that has no property of its own under such a name yields the inherited value.
\<close>

datatype inherited =
    ObjectConstructor
  | DefineGetter
  | DefineSetter
  | HasOwnProperty
  | LookupGetter
  | LookupSetter
  | IsPrototypeOf
  | PropertyIsEnumerable
  | ToString
  | ValueOf
  | ToLocaleString
  | ObjectPrototype

text \<open>
  Strings are lists of 8-bit characters, one per code unit. The only objects among the
  values are the inherited ones; two of them are the same object exactly when they are
  the same property.
\<close>

datatype jsval =
    JUndefined
  | JNull
  | JBool bool
  | JNum safe_int
  | JStr string
  | JInherited inherited

datatype js_error = TypeError

type_synonym jsrecord = "string \<rightharpoonup> jsval"

text \<open>\<open>!!error\<close>: the truthiness of a value.\<close>

fun truthy :: "jsval \<Rightarrow> bool" where
  "truthy JUndefined = False"
| "truthy JNull = False"
| "truthy (JBool b) = b"
| "truthy (JNum n) = (int_of n \<noteq> 0)"
| "truthy (JStr s) = (s \<noteq> [])"
| "truthy (JInherited p) = True"

definition proto_lookup :: "string \<Rightarrow> inherited option" where
  "proto_lookup key =
     (if key = ''constructor'' then Some ObjectConstructor
      else if key = ''__defineGetter__'' then Some DefineGetter
      else if key = ''__defineSetter__'' then Some DefineSetter
      else if key = ''hasOwnProperty'' then Some HasOwnProperty
      else if key = ''__lookupGetter__'' then Some LookupGetter
      else if key = ''__lookupSetter__'' then Some LookupSetter
      else if key = ''isPrototypeOf'' then Some IsPrototypeOf
      else if key = ''propertyIsEnumerable'' then Some PropertyIsEnumerable
      else if key = ''toString'' then Some ToString
      else if key = ''valueOf'' then Some ValueOf
      else if key = ''toLocaleString'' then Some ToLocaleString
      else if key = ''__proto__'' then Some ObjectPrototype
      else None)"

text \<open>
  \<open>data[key]\<close> on a plain object whose prototype is \<open>Object.prototype\<close>: the record's
  own property if it has one, else the inherited one, else \<open>undefined\<close>.
\<close>

definition get_field :: "jsrecord \<Rightarrow> string \<Rightarrow> jsval" where
  "get_field data key =
     (case data key of
        Some v \<Rightarrow> v
      | None \<Rightarrow> (case proto_lookup key of Some p \<Rightarrow> JInherited p | None \<Rightarrow> JUndefined))"

text \<open>
  \<open>errors[key] = error\<close> on a plain object: a new own property, except under the name
  \<open>__proto__\<close>, where the inherited setter takes the value (it ignores a primitive and
  makes an object the prototype) and no own property appears. The map holds the own
  properties.
\<close>

definition set_field :: "jsrecord \<Rightarrow> string \<Rightarrow> jsval \<Rightarrow> jsrecord" where
  "set_field obj key v = (if key = ''__proto__'' then obj else obj(key \<mapsto> v))"

subsection \<open>The platform\<close>

text \<open>
  What a rule reads beyond its arguments: \<open>clock\<close> is the time value of \<open>new Date()\<close>
  during the call, \<open>date_parse\<close> is \<open>Date.parse\<close> (its result for strings outside the
  ISO format is up to the platform), \<open>native_source\<close> gives the source text that
  \<open>Function.prototype.toString\<close> returns for the built-in function of a given name (its
  white space is up to the platform).
\<close>

type_synonym date = "int option"

type_synonym date_parser = "string \<Rightarrow> int option"

record env =
  clock :: int
  date_parse :: date_parser
  native_source :: "string \<Rightarrow> string"

type_synonym rule = "env \<Rightarrow> jsval \<Rightarrow> jsrecord \<Rightarrow> js_error + jsval"

subsection \<open>Conversions and property reads\<close>

text \<open>Decimal rendering of an integer, as template strings and \<open>ToString\<close> produce it.\<close>

definition digit_char :: "nat \<Rightarrow> char" where
  "digit_char d = ''0123456789'' ! d"

fun show_nat :: "nat \<Rightarrow> string" where
  "show_nat n = (if n < 10 then [digit_char n] else show_nat (n div 10) @ [digit_char (n mod 10)])"

declare show_nat.simps [simp del]

definition show_int :: "safe_int \<Rightarrow> string" where
  "show_int i =
     (if int_of i < 0 then CHR ''-'' # show_nat (nat (- int_of i)) else show_nat (nat (int_of i)))"

text \<open>The name under which each inherited function prints.\<close>

fun function_name :: "inherited \<Rightarrow> string" where
  "function_name ObjectConstructor = ''Object''"
| "function_name DefineGetter = ''__defineGetter__''"
| "function_name DefineSetter = ''__defineSetter__''"
| "function_name HasOwnProperty = ''hasOwnProperty''"
| "function_name LookupGetter = ''__lookupGetter__''"
| "function_name LookupSetter = ''__lookupSetter__''"
| "function_name IsPrototypeOf = ''isPrototypeOf''"
| "function_name PropertyIsEnumerable = ''propertyIsEnumerable''"
| "function_name ToString = ''toString''"
| "function_name ValueOf = ''valueOf''"
| "function_name ToLocaleString = ''toLocaleString''"
| "function_name ObjectPrototype = []"

text \<open>
  \<open>ToString\<close>, as \<open>RE.test\<close>, \<open>Array.prototype.join\<close> and \<open>new Date\<close> apply it. A
  function prints as its source text, \<open>Object.prototype\<close> as \<open>[object Object]\<close>.
\<close>

fun to_string :: "env \<Rightarrow> jsval \<Rightarrow> string" where
  "to_string pf JUndefined = ''undefined''"
| "to_string pf JNull = ''null''"
| "to_string pf (JBool b) = (if b then ''true'' else ''false'')"
| "to_string pf (JNum n) = show_int n"
| "to_string pf (JStr s) = s"
| "to_string pf (JInherited p) =
     (if p = ObjectPrototype then ''[object Object]'' else native_source pf (function_name p))"

text \<open>
  \<open>value.length\<close>: reading a property of \<open>undefined\<close> or \<open>null\<close> throws; a string has
  its length, a function the number of its parameters; a boolean, a number and
  \<open>Object.prototype\<close> have no such property (\<open>undefined\<close>, here \<open>None\<close>).
\<close>

fun arity :: "inherited \<Rightarrow> int option" where
  "arity ObjectConstructor = Some 1"
| "arity DefineGetter = Some 2"
| "arity DefineSetter = Some 2"
| "arity HasOwnProperty = Some 1"
| "arity LookupGetter = Some 1"
| "arity LookupSetter = Some 1"
| "arity IsPrototypeOf = Some 1"
| "arity PropertyIsEnumerable = Some 1"
| "arity ToString = Some 0"
| "arity ValueOf = Some 0"
| "arity ToLocaleString = Some 0"
| "arity ObjectPrototype = None"

fun get_length :: "jsval \<Rightarrow> js_error + int option" where
  "get_length JUndefined = Inl TypeError"
| "get_length JNull = Inl TypeError"
| "get_length (JStr s) = Inr (Some (int (length s)))"
| "get_length (JBool b) = Inr None"
| "get_length (JNum n) = Inr None"
| "get_length (JInherited p) = Inr (arity p)"

text \<open>
  \<open>a < b\<close> on numbers where either side may be \<open>undefined\<close> or \<open>NaN\<close> (\<open>None\<close>): such
  a comparison is false. Date objects compare by their time values in the same way.
\<close>

fun num_lt :: "int option \<Rightarrow> int option \<Rightarrow> bool" where
  "num_lt (Some a) (Some b) = (a < b)"
| "num_lt _ _ = False"

text \<open>
  \<open>value.toLowerCase()\<close>: only strings have the method; calling it on a boolean, a
  number or an inherited object throws, as does reading it from \<open>undefined\<close> or
  \<open>null\<close>. Within the 8-bit range the letters with a lower-case form are A-Z and
  0xC0-0xDE without 0xD7.
\<close>

definition lower_char :: "char \<Rightarrow> char" where
  "lower_char c =
     (let n = (of_char c :: nat)
      in if (65 \<le> n \<and> n \<le> 90) \<or> (192 \<le> n \<and> n \<le> 222 \<and> n \<noteq> 215) then char_of (n + 32) else c)"

fun toLowerCase :: "jsval \<Rightarrow> js_error + string" where
  "toLowerCase (JStr s) = Inr (map lower_char s)"
| "toLowerCase _ = Inl TypeError"

text \<open>\<open>values.join(', ')\<close>: \<open>undefined\<close> and \<open>null\<close> elements render as the empty string.\<close>

fun join_item :: "env \<Rightarrow> jsval \<Rightarrow> string" where
  "join_item pf JUndefined = []"
| "join_item pf JNull = []"
| "join_item pf v = to_string pf v"

fun array_join :: "env \<Rightarrow> string \<Rightarrow> jsval list \<Rightarrow> string" where
  "array_join pf sep [] = []"
| "array_join pf sep [v] = join_item pf v"
| "array_join pf sep (v # w # vs) = join_item pf v @ sep @ array_join pf sep (w # vs)"

subsection \<open>Dates\<close>

text \<open>
  A Date object is its time value in milliseconds, \<open>None\<close> for an invalid date.
  \<open>new Date(value)\<close> hands a string to the platform's parser and converts any other
  primitive to a number: \<open>undefined\<close> gives an invalid date, \<open>null\<close> and \<open>false\<close> the
  epoch, a number outside the range of time values an invalid date. An object is first
  made a primitive, which for the inherited ones is their string.
\<close>

definition time_clip :: "int \<Rightarrow> date" where
  "time_clip t = (if \<bar>t\<bar> \<le> 8640000000000000 then Some t else None)"

fun new_Date :: "env \<Rightarrow> jsval \<Rightarrow> date" where
  "new_Date pf (JStr s) = date_parse pf s"
| "new_Date pf JUndefined = None"
| "new_Date pf JNull = time_clip 0"
| "new_Date pf (JBool b) = time_clip (if b then 1 else 0)"
| "new_Date pf (JNum n) = time_clip (int_of n)"
| "new_Date pf (JInherited p) = date_parse pf (to_string pf (JInherited p))"

subsection \<open>Regular expressions\<close>

text \<open>
  Every pattern of the module is anchored at both ends and has no flags, so
  \<open>RE.test\<close> asks whether the whole string is in the pattern's language. The
  matcher works by derivatives. \<open>Both\<close> is intersection; it carries the leading
  lookaheads \<open>(?=.*c)\<close>, which ask for some prefix matching \<open>.*c\<close>.
\<close>

datatype regex =
    Zero
  | One
  | Atom "char \<Rightarrow> bool"
  | Alt regex regex
  | Seq regex regex
  | Star regex
  | Both regex regex

fun nullable :: "regex \<Rightarrow> bool" where
  "nullable Zero = False"
| "nullable One = True"
| "nullable (Atom p) = False"
| "nullable (Alt r s) = (nullable r \<or> nullable s)"
| "nullable (Seq r s) = (nullable r \<and> nullable s)"
| "nullable (Star r) = True"
| "nullable (Both r s) = (nullable r \<and> nullable s)"

fun deriv :: "char \<Rightarrow> regex \<Rightarrow> regex" where
  "deriv c Zero = Zero"
| "deriv c One = Zero"
| "deriv c (Atom p) = (if p c then One else Zero)"
| "deriv c (Alt r s) = Alt (deriv c r) (deriv c s)"
| "deriv c (Seq r s) =
     (if nullable r then Alt (Seq (deriv c r) s) (deriv c s) else Seq (deriv c r) s)"
| "deriv c (Star r) = Seq (deriv c r) (Star r)"
| "deriv c (Both r s) = Both (deriv c r) (deriv c s)"

definition re_test :: "regex \<Rightarrow> string \<Rightarrow> bool" where
  "re_test r s = nullable (fold deriv s r)"

definition re_chr :: "char \<Rightarrow> regex" where
  "re_chr c = Atom (\<lambda>x. x = c)"

definition in_range :: "char \<Rightarrow> char \<Rightarrow> char \<Rightarrow> bool" where
  "in_range lo hi c = ((of_char lo :: nat) \<le> of_char c \<and> (of_char c :: nat) \<le> of_char hi)"

definition re_digit :: "char \<Rightarrow> bool" where
  "re_digit = in_range CHR ''0'' CHR ''9''"

definition re_lower :: "char \<Rightarrow> bool" where
  "re_lower = in_range CHR ''a'' CHR ''z''"

definition re_upper :: "char \<Rightarrow> bool" where
  "re_upper = in_range CHR ''A'' CHR ''Z''"

definition re_word :: "char \<Rightarrow> bool" where
  "re_word c = (re_lower c \<or> re_upper c \<or> re_digit c \<or> c = CHR ''_'')"

definition re_space :: "char \<Rightarrow> bool" where
  "re_space c = ((of_char c :: nat) \<in> {9, 10, 11, 12, 13, 32, 160})"

definition re_dot :: "char \<Rightarrow> bool" where
  "re_dot c = ((of_char c :: nat) \<notin> {10, 13})"

definition re_opt :: "regex \<Rightarrow> regex" where
  "re_opt r = Alt One r"

definition re_plus :: "regex \<Rightarrow> regex" where
  "re_plus r = Seq r (Star r)"

definition lookahead :: "regex \<Rightarrow> regex \<Rightarrow> regex" where
  "lookahead a r = Both (Seq a (Star (Atom (\<lambda>c. True)))) r"

fun seqs :: "regex list \<Rightarrow> regex" where
  "seqs [] = One"
| "seqs [r] = r"
| "seqs (r # rs) = Seq r (seqs rs)"

definition contains_class :: "(char \<Rightarrow> bool) \<Rightarrow> regex" where
  "contains_class p = lookahead (Seq (Star (Atom re_dot)) (Atom p)) (re_plus (Atom re_dot))"

definition isIntegerRE :: regex where
  "isIntegerRE =
     Seq (re_opt (re_chr CHR ''+''))
       (Alt (re_chr CHR ''0'') (Seq (Atom (in_range CHR ''1'' CHR ''9'')) (Star (Atom re_digit))))"

definition numberRE :: regex where
  "numberRE = contains_class re_digit"

definition name_word :: regex where
  "name_word =
     Seq (Atom re_lower)
       (Star (Seq (re_opt (Atom (\<lambda>c. c = CHR ''-'' \<or> c = CHR 0x27))) (re_plus (Atom re_lower))))"

definition twoWordsRE :: regex where
  "twoWordsRE = Seq name_word (re_plus (Seq (re_chr CHR '' '') name_word))"

definition lowercaseRE :: regex where
  "lowercaseRE = contains_class re_lower"

definition uppercaseRE :: regex where
  "uppercaseRE = contains_class re_upper"

definition specialCharRE :: regex where
  "specialCharRE = contains_class (\<lambda>c. c = CHR ''_'' \<or> \<not> re_word c)"

definition email_atom :: "char \<Rightarrow> bool" where
  "email_atom c =
     (\<not> (c \<in> set ''<>()[].,;:@'' \<or> c = CHR 0x5C \<or> c = CHR 0x22 \<or> re_space c))"

definition email_local :: regex where
  "email_local =
     Alt (Seq (re_plus (Atom email_atom)) (Star (Seq (re_chr CHR ''.'') (re_plus (Atom email_atom)))))
         (seqs [re_chr (CHR 0x22), re_plus (Atom re_dot), re_chr (CHR 0x22)])"

definition octet :: regex where
  "octet = seqs [Atom re_digit, re_opt (Atom re_digit), re_opt (Atom re_digit)]"

definition email_domain :: regex where
  "email_domain =
     Alt (seqs [re_chr CHR ''['', octet, re_chr CHR ''.'', octet, re_chr CHR ''.'', octet,
                re_chr CHR ''.'', octet, re_chr CHR '']''])
         (Seq (re_plus (Seq (re_plus (Atom (\<lambda>c. re_lower c \<or> re_upper c \<or> c = CHR ''-'' \<or> re_digit c)))
                         (re_chr CHR ''.'')))
              (seqs [Atom (\<lambda>c. re_lower c \<or> re_upper c), Atom (\<lambda>c. re_lower c \<or> re_upper c),
                     Star (Atom (\<lambda>c. re_lower c \<or> re_upper c))]))"

definition emailRE :: regex where
  "emailRE = seqs [email_local, re_chr CHR ''@'', email_domain]"

definition dateRE :: regex where
  "dateRE =
     seqs [re_opt (Atom (\<lambda>c. c \<in> set ''0,1'')), Atom re_digit, re_chr CHR ''/'',
           Alt (Seq (re_opt (Atom (in_range CHR ''0'' CHR ''2''))) (Atom re_digit))
               (Seq (re_chr CHR ''3'') (Atom (\<lambda>c. c \<in> set ''01''))),
           re_chr CHR ''/'',
           Alt (seqs [re_chr CHR ''1'', re_chr CHR ''9'', re_chr CHR ''9'', Atom re_digit])
               (seqs [Atom (in_range CHR ''2'' CHR ''9''), Atom re_digit, Atom re_digit, Atom re_digit]),
           Atom re_space,
           re_opt (Atom (in_range CHR ''0'' CHR ''2'')), Atom re_digit, re_chr CHR '':'',
           Atom (in_range CHR ''0'' CHR ''5''), Atom re_digit, re_chr CHR '' '',
           re_opt (Alt (Seq (re_chr CHR ''a'') (re_chr CHR ''m'')) (Seq (re_chr CHR ''p'') (re_chr CHR ''m'')))]"

subsection \<open>The rule combinator\<close>

text \<open>
  \<open>rules.map(rule => rule(value, data))\<close> calls every rule, in list order; a rule that
  throws ends the whole evaluation. \<open>filter(error => !!error)[0]\<close> is the first truthy
  result, \<open>undefined\<close> when the filtered array is empty.
\<close>

fun map_rules :: "rule list \<Rightarrow> env \<Rightarrow> jsval \<Rightarrow> jsrecord \<Rightarrow> js_error + jsval list" where
  "map_rules [] pf value data = Inr []"
| "map_rules (rule # rules) pf value data =
     (case rule pf value data of
        Inl e \<Rightarrow> Inl e
      | Inr error \<Rightarrow>
          (case map_rules rules pf value data of
             Inl e \<Rightarrow> Inl e
           | Inr errors \<Rightarrow> Inr (error # errors)))"

definition index0 :: "jsval list \<Rightarrow> jsval" where
  "index0 xs = (case xs of [] \<Rightarrow> JUndefined | x # _ \<Rightarrow> x)"

definition join :: "rule list \<Rightarrow> rule" where
  "join rules pf value data =
     (case map_rules rules pf value data of
        Inl e \<Rightarrow> Inl e
      | Inr errors \<Rightarrow> Inr (index0 (filter truthy errors)))"

subsection \<open>The predicate library\<close>

definition noValue :: "jsval \<Rightarrow> bool" where
  "noValue value = (value = JUndefined \<or> value = JNull \<or> value = JStr [])"

definition validateWithRE :: "regex \<Rightarrow> string \<Rightarrow> env \<Rightarrow> jsval \<Rightarrow> js_error + jsval" where
  "validateWithRE RE message pf value =
     (if \<not> re_test RE (to_string pf value) then Inr (JStr message) else Inr JUndefined)"

text \<open>\<open>value && e\<close>: the value itself when it is falsy, otherwise what \<open>e\<close> evaluates to.\<close>

definition and_then :: "jsval \<Rightarrow> (js_error + jsval) \<Rightarrow> js_error + jsval" where
  "and_then value e = (if truthy value then e else Inr value)"

definition minLength :: "safe_int \<Rightarrow> rule" where
  "minLength minimum pf value data =
     (if noValue value then Inr JUndefined
      else case get_length value of
             Inl e \<Rightarrow> Inl e
           | Inr len \<Rightarrow>
               if num_lt len (Some (int_of minimum))
               then Inr (JStr (''Value must contain at least '' @ show_int minimum @ '' characters''))
               else Inr JUndefined)"

definition maxLength :: "safe_int \<Rightarrow> rule" where
  "maxLength maximum pf value data =
     (if noValue value then Inr JUndefined
      else case get_length value of
             Inl e \<Rightarrow> Inl e
           | Inr len \<Rightarrow>
               if num_lt (Some (int_of maximum)) len
               then Inr (JStr (''Value must be no more than '' @ show_int maximum
                                @ '' characters in length''))
               else Inr JUndefined)"

definition valueRequired :: rule where
  "valueRequired pf value data =
     (if noValue value then Inr (JStr ''Value Required'') else Inr JUndefined)"

definition containsSpecialChar :: rule where
  "containsSpecialChar pf value data =
     and_then value (validateWithRE specialCharRE ''Must contain 1 special character.'' pf value)"

definition isInteger :: rule where
  "isInteger pf value data =
     and_then value (validateWithRE isIntegerRE ''Must be an integer value.'' pf value)"

definition containsNumber :: rule where
  "containsNumber pf value data =
     and_then value (validateWithRE numberRE ''Must Contain at least one number'' pf value)"

definition containsLowercase :: rule where
  "containsLowercase pf value data =
     and_then value
       (validateWithRE lowercaseRE ''Must contain at least one lowercase letter.'' pf value)"

definition containsUppercase :: rule where
  "containsUppercase pf value data =
     and_then value
       (validateWithRE uppercaseRE ''Must contain at least one uppercase letter'' pf value)"

definition containsTwoWords :: rule where
  "containsTwoWords pf value data =
     (case (if truthy value then toLowerCase value else Inr []) of
        Inl e \<Rightarrow> Inl e
      | Inr lowercaseValue \<Rightarrow>
          and_then value
            (validateWithRE twoWordsRE ''Must contain two words, i.e. full name.'' pf
               (JStr lowercaseValue)))"

definition isEmail :: rule where
  "isEmail pf value data =
     and_then value (validateWithRE emailRE ''Must be a valid email address.'' pf value)"

definition isValidDate :: rule where
  "isValidDate pf value data =
     and_then value (validateWithRE dateRE ''Must be a valid date time.'' pf value)"

definition isInFuture :: rule where
  "isInFuture pf value data =
     (let currentDate = Some (clock pf);
          setDate = new_Date pf value
      in Inr (if num_lt setDate currentDate then JStr ''Please choose a date in the future''
              else JNull))"

definition validateOneOf :: "jsval list \<Rightarrow> string \<Rightarrow> jsval \<Rightarrow> js_error + jsval" where
  "validateOneOf values message value =
     (let isValid = (length (filter (\<lambda>item. item = value) values) > 0)
      in Inr (if isValid then JStr message else JNull))"

definition matches :: "jsval \<Rightarrow> rule" where
  "matches matchVal pf currentVal data =
     Inr (if matchVal = currentVal then JNull else JStr ''Values must match'')"

definition oneOf :: "jsval list \<Rightarrow> rule" where
  "oneOf values pf value data =
     validateOneOf values (''Value must be one of: '' @ array_join pf '', '' values) value"

definition noLaterThan :: "string \<Rightarrow> rule" where
  "noLaterThan field pf value data =
     (let startDate = new_Date pf (get_field data field);
          endDate = new_Date pf value
      in Inr (if num_lt endDate startDate
              then JStr ''The end date must come after the start date'' else JNull))"

subsection \<open>The schema aggregator\<close>

text \<open>
  A schema binds each field to one rule or to an array of rules; \<open>[].concat(x)\<close>
  makes a list of either. The schema is the list of its entries in the order of
  \<open>Object.keys\<close>; the error object is the map of its own properties. An omitted
  argument (\<open>None\<close>) is the empty record, by the default parameter.
\<close>

datatype 'r entry = Single 'r | Many "'r list"

type_synonym schema = "(string \<times> rule entry) list"

type_synonym errormap = "string \<rightharpoonup> jsval"

fun concat_entry :: "'r entry \<Rightarrow> 'r list" where
  "concat_entry (Single r) = [r]"
| "concat_entry (Many rs) = rs"

fun forEach_key :: "schema \<Rightarrow> env \<Rightarrow> jsrecord \<Rightarrow> errormap \<Rightarrow> js_error + errormap" where
  "forEach_key [] pf data errors = Inr errors"
| "forEach_key ((key, e) # rest) pf data errors =
     (let rule = join (concat_entry e)
      in case rule pf (get_field data key) data of
           Inl x \<Rightarrow> Inl x
         | Inr error \<Rightarrow>
             forEach_key rest pf data (if truthy error then set_field errors key error else errors))"

definition createValidator :: "schema \<Rightarrow> env \<Rightarrow> jsrecord option \<Rightarrow> js_error + errormap" where
  "createValidator validationRules pf arg =
     (let data = (case arg of None \<Rightarrow> Map.empty | Some d \<Rightarrow> d)
      in forEach_key validationRules pf data Map.empty)"

subsection \<open>Schemas written with the library\<close>

text \<open>
  A form author writes a schema from the library's predicates and factories. \<open>pred\<close>
  names them; \<open>library_rule\<close> is the rule each name stands for.
\<close>

datatype pred =
    MinLength safe_int
  | MaxLength safe_int
  | ValueRequired
  | ContainsSpecialChar
  | IsInteger
  | ContainsNumber
  | ContainsLowercase
  | ContainsUppercase
  | ContainsTwoWords
  | IsEmail
  | IsValidDate
  | IsInFuture
  | OneOf "jsval list"
  | Matches jsval
  | NoLaterThan string

fun library_rule :: "pred \<Rightarrow> rule" where
  "library_rule (MinLength n) = minLength n"
| "library_rule (MaxLength n) = maxLength n"
| "library_rule ValueRequired = valueRequired"
| "library_rule ContainsSpecialChar = containsSpecialChar"
| "library_rule IsInteger = isInteger"
| "library_rule ContainsNumber = containsNumber"
| "library_rule ContainsLowercase = containsLowercase"
| "library_rule ContainsUppercase = containsUppercase"
| "library_rule ContainsTwoWords = containsTwoWords"
| "library_rule IsEmail = isEmail"
| "library_rule IsValidDate = isValidDate"
| "library_rule IsInFuture = isInFuture"
| "library_rule (OneOf vs) = oneOf vs"
| "library_rule (Matches m) = matches m"
| "library_rule (NoLaterThan f) = noLaterThan f"

definition library_schema :: "(string \<times> pred entry) list \<Rightarrow> schema" where
  "library_schema S = map (\<lambda>(key, e). (key, map_entry library_rule e)) S"

subsection \<open>A platform to run the predicates on\<close>

text \<open>
  \<open>sample_parse\<close> is the platform's parser cut down to the two date-time strings of the
  form's \<open>MM/DD/YYYY h:mm a\<close> format that the examples below use (read in the UTC zone);
  any other string is unparsable for it. \<open>sample_source\<close> is the one-line source text
  of a built-in function. \<open>sample_env now\<close> is this platform at the instant \<open>now\<close>.
\<close>

definition sample_parse :: date_parser where
  "sample_parse s =
     (if s = ''01/01/2020 10:00 am'' then Some 1577872800000
      else if s = ''01/01/2019 10:00 am'' then Some 1546336800000
      else None)"

definition sample_source :: "string \<Rightarrow> string" where
  "sample_source name = ''function '' @ name @ ''() { [native code] }''"

definition sample_env :: "int \<Rightarrow> env" where
  "sample_env now = \<lparr>clock = now, date_parse = sample_parse, native_source = sample_source\<rparr>"

section \<open>Properties\<close>

subsection \<open>Numbers and inherited names\<close>

lemma int_of_num:
  "int_of (num n) = (if \<bar>n\<bar> \<le> 9007199254740991 then n else 0)"
  by (simp add: num_def Abs_safe_int_inverse)

lemma get_field_own: "d f = Some v \<Longrightarrow> get_field d f = v"
  by (simp add: get_field_def)

lemma get_field_missing: "d f = None \<Longrightarrow> proto_lookup f = None \<Longrightarrow> get_field d f = JUndefined"
  by (simp add: get_field_def)

lemma get_field_inherited: "d f = None \<Longrightarrow> proto_lookup f = Some p \<Longrightarrow> get_field d f = JInherited p"
  by (simp add: get_field_def)

subsection \<open>The combinator: results of the rules and the first failure\<close>

lemma map_rules_iff:
  "map_rules rules pf v d = Inr rs \<longleftrightarrow> list_all2 (\<lambda>rule r. rule pf v d = Inr r) rules rs"
proof (induction rules arbitrary: rs)
  case Nil
  show ?case by auto
next
  case (Cons rule rules)
  show ?case
    by (cases rs) (auto simp: Cons.IH [symmetric] split: sum.splits)
qed

lemma join_results:
  assumes "list_all2 (\<lambda>rule r. rule pf v d = Inr r) rules rs"
  shows "join rules pf v d = Inr (index0 (filter truthy rs))"
  using assms by (simp add: join_def map_rules_iff [symmetric])

lemma join_Inr_iff:
  "join rules pf v d = Inr m \<longleftrightarrow>
     (\<exists>rs. list_all2 (\<lambda>rule r. rule pf v d = Inr r) rules rs \<and> m = index0 (filter truthy rs))"
  by (auto simp: join_def map_rules_iff [symmetric] split: sum.splits)

lemma index0_filter_first:
  "i < length xs \<Longrightarrow> truthy (xs ! i) \<Longrightarrow> \<forall>j<i. \<not> truthy (xs ! j)
     \<Longrightarrow> index0 (filter truthy xs) = xs ! i"
proof (induction xs arbitrary: i)
  case Nil
  then show ?case by simp
next
  case (Cons x xs)
  show ?case
  proof (cases i)
    case 0
    with Cons.prems show ?thesis by (simp add: index0_def)
  next
    case (Suc k)
    with Cons.prems have "\<not> truthy x" by auto
    moreover from Suc Cons.prems have "index0 (filter truthy xs) = xs ! k"
      by (intro Cons.IH) auto
    ultimately show ?thesis using Suc by simp
  qed
qed

lemma index0_filter_none:
  "\<forall>x\<in>set xs. \<not> truthy x \<Longrightarrow> index0 (filter truthy xs) = JUndefined"
  by (induction xs) (auto simp: index0_def)

lemma index0_filter_cases:
  "index0 (filter truthy xs) = JUndefined \<and> (\<forall>x\<in>set xs. \<not> truthy x)
   \<or> truthy (index0 (filter truthy xs)) \<and> index0 (filter truthy xs) \<in> set xs"
  by (induction xs) (auto simp: index0_def)

lemma join_total:
  assumes "\<forall>rule\<in>set rules. \<exists>r. rule pf v d = Inr r"
  shows "\<exists>r. join rules pf v d = Inr r"
proof -
  from assms have "\<exists>rs. list_all2 (\<lambda>rule r. rule pf v d = Inr r) rules rs"
    by (induction rules) (auto simp: list_all2_Cons1)
  then show ?thesis by (auto simp: join_Inr_iff)
qed

lemma join_truthy:
  assumes "join rules pf v d = Inr m" and "truthy m"
  shows "\<exists>rule\<in>set rules. rule pf v d = Inr m"
proof -
  from assms(1) obtain rs where rs: "list_all2 (\<lambda>rule r. rule pf v d = Inr r) rules rs"
    and m: "m = index0 (filter truthy rs)"
    by (auto simp: join_Inr_iff)
  from index0_filter_cases [of rs] assms(2) m have "m \<in> set rs" by auto
  then obtain i where "i < length rs" "rs ! i = m" by (auto simp: in_set_conv_nth)
  with rs have "(rules ! i) pf v d = Inr m" "i < length rules"
    by (auto simp: list_all2_conv_all_nth)
  then show ?thesis by (metis nth_mem)
qed

lemma join_Cons:
  "join (rule # rules) pf v d =
     (case rule pf v d of
        Inl e \<Rightarrow> Inl e
      | Inr x \<Rightarrow> (case join rules pf v d of
                   Inl e \<Rightarrow> Inl e
                 | Inr y \<Rightarrow> Inr (if truthy x then x else y)))"
  by (simp add: join_def index0_def split: sum.splits)

lemma join_Nil: "join [] pf v d = Inr JUndefined"
  by (simp add: join_def index0_def)

lemma map_rules_cong:
  "\<forall>rule\<in>set rules. rule pf' v' d' = rule pf v d
     \<Longrightarrow> map_rules rules pf' v' d' = map_rules rules pf v d"
  by (induction rules) (auto split: sum.splits)

lemma join_cong:
  "\<forall>rule\<in>set rules. rule pf' v' d' = rule pf v d \<Longrightarrow> join rules pf' v' d' = join rules pf v d"
  by (simp add: join_def map_rules_cong)

subsection \<open>The aggregator: which keys the error map holds\<close>

lemma forEach_key_total:
  "\<forall>(f, e)\<in>set S. \<exists>r. join (concat_entry e) pf (get_field d f) d = Inr r
     \<Longrightarrow> \<exists>E. forEach_key S pf d E0 = Inr E"
  by (induction S arbitrary: E0) (auto split: sum.splits)

lemma forEach_key_keeps:
  "forEach_key S pf d E0 = Inr E \<Longrightarrow> E0 f \<noteq> None \<Longrightarrow> E f \<noteq> None"
  by (induction S arbitrary: E0) (auto simp: set_field_def split: sum.splits if_splits)

lemma forEach_key_sound:
  "forEach_key S pf d E0 = Inr E \<Longrightarrow> E f = Some m
     \<Longrightarrow> E0 f = Some m
         \<or> (\<exists>e. (f, e) \<in> set S \<and> join (concat_entry e) pf (get_field d f) d = Inr m \<and> truthy m)"
proof (induction S arbitrary: E0)
  case Nil
  then show ?case by simp
next
  case (Cons a S)
  obtain k e where a: "a = (k, e)" by (cases a)
  from Cons.prems(1) a obtain r where r: "join (concat_entry e) pf (get_field d k) d = Inr r"
    and rest: "forEach_key S pf d (if truthy r then set_field E0 k r else E0) = Inr E"
    by (auto split: sum.splits)
  from Cons.IH [OF rest Cons.prems(2)] r a show ?case
    by (auto simp: set_field_def split: if_splits)
qed

lemma forEach_key_complete:
  "forEach_key S pf d E0 = Inr E \<Longrightarrow> (f, e) \<in> set S \<Longrightarrow> f \<noteq> ''__proto__''
     \<Longrightarrow> join (concat_entry e) pf (get_field d f) d = Inr m \<Longrightarrow> truthy m \<Longrightarrow> E f \<noteq> None"
proof (induction S arbitrary: E0)
  case Nil
  then show ?case by simp
next
  case (Cons a S)
  obtain k e' where a: "a = (k, e')" by (cases a)
  from Cons.prems(1) a obtain r where r: "join (concat_entry e') pf (get_field d k) d = Inr r"
    and rest: "forEach_key S pf d (if truthy r then set_field E0 k r else E0) = Inr E"
    by (auto split: sum.splits)
  show ?case
  proof (cases "(f, e) \<in> set S")
    case True
    from Cons.IH [OF rest True Cons.prems(3,4,5)] show ?thesis .
  next
    case False
    with Cons.prems(2) a have "k = f" "e' = e" by auto
    with r Cons.prems(3,4,5) have "(if truthy r then set_field E0 k r else E0) f \<noteq> None"
      by (auto simp: set_field_def)
    from forEach_key_keeps [OF rest this] show ?thesis .
  qed
qed

lemma forEach_key_proto:
  "forEach_key S pf d E0 = Inr E \<Longrightarrow> E ''__proto__'' = E0 ''__proto__''"
  by (induction S arbitrary: E0) (auto simp: set_field_def split: sum.splits if_splits)

lemma forEach_key_cong:
  "\<forall>(f, e)\<in>set S. join (concat_entry e) pf' (get_field d' f) d'
                     = join (concat_entry e) pf (get_field d f) d
     \<Longrightarrow> forEach_key S pf' d' E0 = forEach_key S pf d E0"
  by (induction S arbitrary: E0) (auto split: sum.splits)

text \<open>
  When every rule of the schema returns on its field's value, the validator returns an
  error map; each entry of the map is the truthy result of a rule of that field's RuleSet.
\<close>

lemma validator_entries:
  assumes "\<forall>(f, e)\<in>set S. \<forall>rule\<in>set (concat_entry e). \<exists>r. rule pf (get_field d f) d = Inr r"
  shows "\<exists>E. createValidator S pf (Some d) = Inr E
           \<and> (\<forall>f m. E f = Some m \<longrightarrow>
                 truthy m \<and> (\<exists>e rule. (f, e) \<in> set S \<and> rule \<in> set (concat_entry e)
                               \<and> rule pf (get_field d f) d = Inr m))"
proof -
  have "\<exists>r. join (concat_entry e) pf (get_field d f) d = Inr r" if "(f, e) \<in> set S" for f e
  proof (rule join_total)
    from assms that show "\<forall>rule\<in>set (concat_entry e). \<exists>r. rule pf (get_field d f) d = Inr r"
      by (auto dest: bspec)
  qed
  then have "\<forall>(f, e)\<in>set S. \<exists>r. join (concat_entry e) pf (get_field d f) d = Inr r"
    by (simp add: split_beta)
  from forEach_key_total [OF this, of Map.empty]
  obtain E where E: "forEach_key S pf d Map.empty = Inr E" ..
  have "truthy m \<and> (\<exists>e rule. (f, e) \<in> set S \<and> rule \<in> set (concat_entry e)
                      \<and> rule pf (get_field d f) d = Inr m)"
    if "E f = Some m" for f m
  proof -
    from forEach_key_sound [OF E that]
    obtain e where e: "(f, e) \<in> set S" "join (concat_entry e) pf (get_field d f) d = Inr m"
      "truthy m"
      by auto
    from join_truthy [OF e(2,3)] obtain rule where
      "rule \<in> set (concat_entry e)" "rule pf (get_field d f) d = Inr m" by (elim bexE)
    with e(1,3) show ?thesis by (intro exI conjI)
  qed
  then have "\<forall>f m. E f = Some m \<longrightarrow>
                 truthy m \<and> (\<exists>e rule. (f, e) \<in> set S \<and> rule \<in> set (concat_entry e)
                               \<and> rule pf (get_field d f) d = Inr m)"
    by (intro allI impI)
  moreover have "createValidator S pf (Some d) = Inr E"
    using E by (simp add: createValidator_def)
  ultimately show ?thesis by (intro exI [of _ E] conjI)
qed

subsection \<open>The library's rules on particular values\<close>

lemmas pred_defs =
  minLength_def maxLength_def valueRequired_def containsSpecialChar_def isInteger_def
  containsNumber_def containsLowercase_def containsUppercase_def containsTwoWords_def
  isEmail_def isValidDate_def isInFuture_def oneOf_def validateOneOf_def matches_def
  noLaterThan_def and_then_def validateWithRE_def

lemmas show_simps = show_int_def show_nat.simps digit_char_def int_of_num

lemma concat_entry_map: "concat_entry (map_entry g e) = map g (concat_entry e)"
  by (cases e) simp_all

lemma library_schema_set:
  "(f, e) \<in> set (library_schema S)
     \<longleftrightarrow> (\<exists>e'. (f, e') \<in> set S \<and> e = map_entry library_rule e')"
  by (auto simp: library_schema_def)

lemma library_rule_undefined:
  "\<exists>r. library_rule p pf JUndefined d = Inr r"
  by (cases p) (simp_all add: pred_defs noValue_def Let_def)

lemma library_rule_quiet:
  assumes "p \<noteq> ValueRequired"
    and "\<forall>m. p = Matches m \<longrightarrow> m = JUndefined"
    and "\<forall>vs. p = OneOf vs \<longrightarrow> JUndefined \<notin> set vs"
  shows "\<exists>r. library_rule p pf JUndefined d = Inr r \<and> \<not> truthy r"
  using assms
  by (cases p) (simp_all add: pred_defs noValue_def Let_def filter_empty_conv)

lemma library_rule_message:
  assumes "library_rule p pf v d = Inr x" and "truthy x"
  shows "\<exists>s. x = JStr s \<and> s \<noteq> []"
  using assms
  by (cases p) (auto simp: pred_defs Let_def split: if_splits sum.splits)

lemma library_rule_returns:
  assumes "v = JUndefined \<or> v = JNull \<or> (\<exists>s. v = JStr s)"
  shows "\<exists>x. library_rule p pf v d = Inr x"
  using assms
  by (cases p) (auto simp: pred_defs Let_def noValue_def split: if_splits sum.splits)

lemma join_library_undefined_returns:
  "\<exists>r. join (map library_rule ps) pf JUndefined d = Inr r"
  by (rule join_total) (auto simp: library_rule_undefined)

lemma join_library_undefined:
  assumes "\<forall>p\<in>set (takeWhile (\<lambda>p. p \<noteq> ValueRequired) ps).
             (\<forall>m. p = Matches m \<longrightarrow> m = JUndefined) \<and> (\<forall>vs. p = OneOf vs \<longrightarrow> JUndefined \<notin> set vs)"
  shows "join (map library_rule ps) pf JUndefined d
           = Inr (if ValueRequired \<in> set ps then JStr ''Value Required'' else JUndefined)"
  using assms
proof (induction ps)
  case Nil
  show ?case by (simp add: join_Nil)
next
  case (Cons p ps)
  show ?case
  proof (cases "p = ValueRequired")
    case True
    from join_library_undefined_returns [of ps pf d]
    obtain r where "join (map library_rule ps) pf JUndefined d = Inr r" ..
    with True show ?thesis
      by (simp add: join_Cons valueRequired_def noValue_def)
  next
    case False
    with Cons.prems have quiet: "\<forall>m. p = Matches m \<longrightarrow> m = JUndefined"
      "\<forall>vs. p = OneOf vs \<longrightarrow> JUndefined \<notin> set vs"
      and rest: "\<forall>p\<in>set (takeWhile (\<lambda>p. p \<noteq> ValueRequired) ps).
             (\<forall>m. p = Matches m \<longrightarrow> m = JUndefined) \<and> (\<forall>vs. p = OneOf vs \<longrightarrow> JUndefined \<notin> set vs)"
      by simp_all
    from library_rule_quiet [OF False quiet, of pf d]
    obtain r where r: "library_rule p pf JUndefined d = Inr r" "\<not> truthy r"
      by blast
    from Cons.IH [OF rest] r False show ?thesis
      by (simp add: join_Cons)
  qed
qed

subsection \<open>What a rule reads of the clock and of the record\<close>

lemma to_string_clock: "to_string (pf\<lparr>clock := t\<rparr>) v = to_string pf v"
  by (cases v) simp_all

lemma array_join_clock: "array_join (pf\<lparr>clock := t\<rparr>) sep vs = array_join pf sep vs"
proof (induction vs rule: array_join.induct [where ?a0.0 = pf and ?a1.0 = sep])
  case (1 pf sep)
  show ?case by simp
next
  case (2 pf sep v)
  show ?case by (cases v) (simp_all add: to_string_clock)
next
  case (3 pf sep v w vs)
  then show ?case by (cases v) (simp_all add: to_string_clock)
qed

lemma new_Date_clock: "new_Date (pf\<lparr>clock := t\<rparr>) v = new_Date pf v"
  by (cases v) (simp_all add: to_string_clock)

lemma library_rule_agree:
  assumes "\<forall>k. get_field d' k = get_field d k"
    and "t = clock pf \<or> p \<noteq> IsInFuture"
  shows "library_rule p (pf\<lparr>clock := t\<rparr>) v d' = library_rule p pf v d"
  using assms
  by (cases p)
     (auto simp: pred_defs Let_def to_string_clock array_join_clock new_Date_clock
           split: sum.splits)

subsection \<open>The predicates on the specification's examples\<close>

lemma isEmail_examples:
  "isEmail pf (JStr ''a@b.com'') d = Inr JUndefined
   \<and> isEmail pf (JStr ''not-an-email'') d = Inr (JStr ''Must be a valid email address.'')"
  by code_simp

lemma containsTwoWords_examples:
  "containsTwoWords pf (JStr ''John Smith'') d = Inr JUndefined
   \<and> containsTwoWords pf (JStr ''John'') d = Inr (JStr ''Must contain two words, i.e. full name.'')"
  by code_simp

lemma minLength_examples:
  "minLength (num 3) pf (JStr ''abc'') d = Inr JUndefined
   \<and> minLength (num 3) pf (JStr ''ab'') d = Inr (JStr ''Value must contain at least 3 characters'')
   \<and> minLength (num 3) pf (JNum (num 7)) d = Inr JUndefined"
  by (simp add: minLength_def noValue_def show_simps)

lemma isValidDate_examples:
  "isValidDate pf (JStr ''01/01/2020 10:00 am'') d = Inr JUndefined
   \<and> isValidDate pf (JStr ''2020-01-01'') d = Inr (JStr ''Must be a valid date time.'')"
  by code_simp

lemma noLaterThan_examples:
  "noLaterThan ''start'' (sample_env 0) (JStr ''01/01/2019 10:00 am'')
     [''start'' \<mapsto> JStr ''01/01/2020 10:00 am'', ''end'' \<mapsto> JStr ''01/01/2019 10:00 am'']
     = Inr (JStr ''The end date must come after the start date'')
   \<and> noLaterThan ''start'' (sample_env 0) (JStr ''01/01/2020 10:00 am'')
     [''start'' \<mapsto> JStr ''01/01/2019 10:00 am'', ''end'' \<mapsto> JStr ''01/01/2020 10:00 am'']
     = Inr JNull"
  by (simp add: noLaterThan_def sample_env_def sample_parse_def get_field_def)

text \<open>
  A schema field named after an inherited property reads the inherited value from a
  record that has no such property of its own: the function \<open>hasOwnProperty\<close> has one
  parameter, so its \<open>length\<close> is below three. An error under the name \<open>__proto__\<close>
  leaves no entry.
\<close>

lemma inherited_names_examples:
  "get_field Map.empty ''hasOwnProperty'' = JInherited HasOwnProperty
   \<and> createValidator [(''hasOwnProperty'', Single (minLength (num 3)))] pf (Some Map.empty)
       = Inr [''hasOwnProperty'' \<mapsto> JStr ''Value must contain at least 3 characters'']
   \<and> createValidator [(''__proto__'', Single (matches (JStr ''secret'')))] pf (Some Map.empty)
       = Inr Map.empty"
  by (simp add: createValidator_def join_Cons join_Nil get_field_def proto_lookup_def
        set_field_def minLength_def matches_def noValue_def show_simps)

section \<open>Claims\<close>

subsection \<open>C1: the empty record\<close>

text \<open>
  C1 as stated fails. A field whose only rule is \<open>matches('secret')\<close> is a key of the
  error map of the empty record although its RuleSet has no \<open>valueRequired\<close>; a
  RuleSet that lists \<open>matches('secret')\<close> before \<open>valueRequired\<close> reports
  \<open>'Values must match'\<close>, not \<open>'Value Required'\<close>; and a field named \<open>constructor\<close>
  with the rule \<open>valueRequired\<close> is no key of the map, because the empty record
  inherits a value under that name.
\<close>

theorem empty_record_matches_counterexample:
  "createValidator [(''confirm'', Single (matches (JStr ''secret'')))] (sample_env 0)
       (Some Map.empty)
     = Inr [''confirm'' \<mapsto> JStr ''Values must match'']
   \<and> createValidator [(''confirm'', Many [matches (JStr ''secret''), valueRequired])]
       (sample_env 0) (Some Map.empty)
     = Inr [''confirm'' \<mapsto> JStr ''Values must match'']
   \<and> createValidator [(''constructor'', Single valueRequired)] (sample_env 0) (Some Map.empty)
     = Inr Map.empty"
  by (simp add: createValidator_def join_Cons join_Nil matches_def valueRequired_def noValue_def
        get_field_def proto_lookup_def set_field_def)

text \<open>
  C1 (amended). Take a schema written with the library in which no field is named after
  a property that every object inherits from \<open>Object.prototype\<close>, and in which no
  \<open>oneOf\<close> rule and no \<open>matches(m)\<close> with \<open>m\<close> other than \<open>undefined\<close> stands before the
  first \<open>valueRequired\<close> of its RuleSet (or anywhere in a RuleSet without
  \<open>valueRequired\<close>). Its validator applied to the empty record returns an error map
  whose keys are exactly the fields whose RuleSet includes \<open>valueRequired\<close>, each
  mapped to \<open>'Value Required'\<close>.
\<close>

theorem empty_record_required:
  assumes "\<forall>(f, e)\<in>set S. proto_lookup f = None \<and>
             (\<forall>p\<in>set (takeWhile (\<lambda>p. p \<noteq> ValueRequired) (concat_entry e)).
                (\<forall>m. p = Matches m \<longrightarrow> m = JUndefined) \<and> (\<forall>vs. p \<noteq> OneOf vs))"
  shows "\<exists>E. createValidator (library_schema S) pf (Some Map.empty) = Inr E
           \<and> (\<forall>f. E f = (if \<exists>e. (f, e) \<in> set S \<and> ValueRequired \<in> set (concat_entry e)
                          then Some (JStr ''Value Required'') else None))"
proof -
  let ?L = "library_schema S"
  let ?res = "\<lambda>f e. join (concat_entry e) pf (get_field Map.empty f) Map.empty"
  have own: "proto_lookup f = None" if "(f, e) \<in> set S" for f e
    using assms that by fastforce
  have res: "?res f (map_entry library_rule e)
               = Inr (if ValueRequired \<in> set (concat_entry e) then JStr ''Value Required''
                      else JUndefined)"
    if "(f, e) \<in> set S" for f e
  proof -
    from assms that
    have "\<forall>p\<in>set (takeWhile (\<lambda>p. p \<noteq> ValueRequired) (concat_entry e)).
             (\<forall>m. p = Matches m \<longrightarrow> m = JUndefined) \<and> (\<forall>vs. p = OneOf vs \<longrightarrow> JUndefined \<notin> set vs)"
      by fastforce
    from join_library_undefined [OF this, of pf Map.empty] own [OF that] show ?thesis
      by (simp add: concat_entry_map get_field_def)
  qed
  have "\<forall>(f, e)\<in>set ?L. \<exists>r. ?res f e = Inr r"
    using res by (auto simp: library_schema_set)
  from forEach_key_total [OF this, of Map.empty]
  obtain E where E: "forEach_key ?L pf Map.empty Map.empty = Inr E" ..
  have "E f = (if \<exists>e. (f, e) \<in> set S \<and> ValueRequired \<in> set (concat_entry e)
               then Some (JStr ''Value Required'') else None)" for f
  proof (cases "\<exists>e. (f, e) \<in> set S \<and> ValueRequired \<in> set (concat_entry e)")
    case True
    then obtain e where e: "(f, e) \<in> set S" "ValueRequired \<in> set (concat_entry e)" by blast
    then have in_L: "(f, map_entry library_rule e) \<in> set ?L"
      by (auto simp: library_schema_set)
    from own [OF e(1)] have "f \<noteq> ''__proto__''"
      by (auto simp: proto_lookup_def)
    from forEach_key_complete [OF E in_L this, of "JStr ''Value Required''"] res [OF e(1)] e(2)
    obtain m where m: "E f = Some m" by auto
    from forEach_key_sound [OF E m]
    obtain e' where "(f, e') \<in> set ?L" "?res f e' = Inr m" "truthy m"
      by auto
    with res have "m = JStr ''Value Required''"
      by (auto simp: library_schema_set split: if_splits)
    with m True show ?thesis by simp
  next
    case False
    have "E f = None"
    proof (rule ccontr)
      assume "E f \<noteq> None"
      then obtain m where m: "E f = Some m" by auto
      from forEach_key_sound [OF E m]
      obtain e' where "(f, e') \<in> set ?L" "?res f e' = Inr m" "truthy m"
        by auto
      with res False show False
        by (auto simp: library_schema_set split: if_splits)
    qed
    with False show ?thesis by simp
  qed
  with E show ?thesis by (simp add: createValidator_def)
qed

theorem empty_record_required_witness:
  "createValidator
     (library_schema
        [(''name'', Many [ValueRequired, MinLength (num 3)]),
         (''confirm'', Many [ValueRequired, Matches (JStr ''secret'')]),
         (''email'', Single IsEmail),
         (''end'', Many [IsValidDate, IsInFuture, NoLaterThan ''start''])])
     (sample_env 0) (Some Map.empty)
   = Inr [''name'' \<mapsto> JStr ''Value Required'', ''confirm'' \<mapsto> JStr ''Value Required'']"
proof -
  let ?S = "[(''name'', Many [ValueRequired, MinLength (num 3)]),
         (''confirm'', Many [ValueRequired, Matches (JStr ''secret'')]),
         (''email'', Single IsEmail),
         (''end'', Many [IsValidDate, IsInFuture, NoLaterThan ''start''])]"
  have h: "\<forall>(f, e)\<in>set ?S. proto_lookup f = None \<and>
             (\<forall>p\<in>set (takeWhile (\<lambda>p. p \<noteq> ValueRequired) (concat_entry e)).
                (\<forall>m. p = Matches m \<longrightarrow> m = JUndefined) \<and> (\<forall>vs. p \<noteq> OneOf vs))"
    by (simp add: proto_lookup_def)
  from empty_record_required [OF h, of "sample_env 0"]
  obtain E where E: "createValidator (library_schema ?S) (sample_env 0) (Some Map.empty) = Inr E"
    and keys: "\<forall>f. E f = (if \<exists>e. (f, e) \<in> set ?S \<and> ValueRequired \<in> set (concat_entry e)
                          then Some (JStr ''Value Required'') else None)"
    by blast
  have "E f = [''name'' \<mapsto> JStr ''Value Required'', ''confirm'' \<mapsto> JStr ''Value Required''] f"
    for f
    using keys [rule_format, of f] by auto
  then have "E = [''name'' \<mapsto> JStr ''Value Required'', ''confirm'' \<mapsto> JStr ''Value Required'']"
    by (rule ext)
  with E show ?thesis by simp
qed

subsection \<open>C2: the first failure wins\<close>

text \<open>
  C2. For a list of rules that all return on \<open>(v, d)\<close>, with the results
  \<open>results\<close> in list order, \<open>join rules\<close> applied to \<open>(v, d)\<close> is the first truthy
  result: the result at any position \<open>i\<close> that is truthy while every earlier one is
  not. When every result is falsy (every predicate passes) it is \<open>undefined\<close>.
\<close>

theorem join_first_failure:
  assumes "list_all2 (\<lambda>rule r. rule pf v d = Inr r) rules results"
  shows "(\<forall>i<length results. truthy (results ! i) \<and> (\<forall>j<i. \<not> truthy (results ! j))
            \<longrightarrow> join rules pf v d = Inr (results ! i))
       \<and> ((\<forall>r\<in>set results. \<not> truthy r) \<longrightarrow> join rules pf v d = Inr JUndefined)"
  using join_results [OF assms] index0_filter_first [of _ results] index0_filter_none [of results]
  by simp

theorem join_first_failure_witness:
  "join [valueRequired, minLength (num 3), matches (JStr ''x'')] (sample_env 0) (JStr ''ab'')
       Map.empty
     = Inr (JStr ''Value must contain at least 3 characters'')
   \<and> join [valueRequired, minLength (num 1)] (sample_env 0) (JStr ''ab'') Map.empty
     = Inr JUndefined"
proof -
  let ?v = "JStr ''ab''"
  let ?d = "Map.empty :: jsrecord"
  let ?pf = "sample_env 0"
  let ?rs = "[JUndefined, JStr ''Value must contain at least 3 characters'',
              JStr ''Values must match'']"
  have h1: "list_all2 (\<lambda>rule r. rule ?pf ?v ?d = Inr r)
              [valueRequired, minLength (num 3), matches (JStr ''x'')] ?rs"
    by (simp add: valueRequired_def minLength_def matches_def noValue_def show_simps)
  have h2: "list_all2 (\<lambda>rule r. rule ?pf ?v ?d = Inr r) [valueRequired, minLength (num 1)]
              [JUndefined, JUndefined]"
    by (simp add: valueRequired_def minLength_def noValue_def show_simps)
  from join_first_failure [OF h1]
  have "1 < length ?rs \<and> truthy (?rs ! 1) \<and> (\<forall>j<1. \<not> truthy (?rs ! j))
     \<longrightarrow> join [valueRequired, minLength (num 3), matches (JStr ''x'')] ?pf ?v ?d = Inr (?rs ! 1)"
    by blast
  then have a: "join [valueRequired, minLength (num 3), matches (JStr ''x'')] ?pf ?v ?d
                  = Inr (?rs ! 1)"
    by simp
  from join_first_failure [OF h2]
  have b: "join [valueRequired, minLength (num 1)] ?pf ?v ?d = Inr JUndefined"
    by simp
  from a b show ?thesis by simp
qed

subsection \<open>C3: the error map is sparse\<close>

text \<open>
  C3. Let every rule of the schema return, on its field's value and the record, a falsy
  value or a string (what a Rule is). Then the validator returns an error map in which
  every entry is a non-empty string and is the result of a rule of that field's RuleSet
  that fails on \<open>(d[f], d)\<close>; a field all of whose rules pass has no entry.
\<close>

theorem errormap_sparse:
  assumes "\<forall>(f, e)\<in>set S. \<forall>rule\<in>set (concat_entry e).
             \<exists>r. rule pf (get_field d f) d = Inr r \<and> (truthy r \<longrightarrow> (\<exists>s. r = JStr s))"
  shows "\<exists>E. createValidator S pf (Some d) = Inr E
           \<and> (\<forall>f m. E f = Some m \<longrightarrow>
                 (\<exists>s. m = JStr s \<and> s \<noteq> [])
                 \<and> (\<exists>e rule. (f, e) \<in> set S \<and> rule \<in> set (concat_entry e)
                       \<and> rule pf (get_field d f) d = Inr m \<and> truthy m))
           \<and> (\<forall>f. (\<forall>e rule r. (f, e) \<in> set S \<longrightarrow> rule \<in> set (concat_entry e)
                       \<longrightarrow> rule pf (get_field d f) d = Inr r \<longrightarrow> \<not> truthy r)
                 \<longrightarrow> E f = None)"
proof -
  have contract: "\<exists>r. rule pf (get_field d f) d = Inr r \<and> (truthy r \<longrightarrow> (\<exists>s. r = JStr s))"
    if "(f, e) \<in> set S" "rule \<in> set (concat_entry e)" for f e rule
  proof -
    from assms that(1) have "\<forall>rule\<in>set (concat_entry e).
        \<exists>r. rule pf (get_field d f) d = Inr r \<and> (truthy r \<longrightarrow> (\<exists>s. r = JStr s))"
      by (auto dest: bspec)
    then show ?thesis using that(2) by (rule bspec)
  qed
  have "\<forall>(f, e)\<in>set S. \<forall>rule\<in>set (concat_entry e). \<exists>r. rule pf (get_field d f) d = Inr r"
  proof (intro ballI, unfold split_paired_all prod.case, intro ballI)
    fix f e rule
    assume "(f, e) \<in> set S" "rule \<in> set (concat_entry e)"
    from contract [OF this] obtain r where "rule pf (get_field d f) d = Inr r"
      by (elim exE conjE)
    then show "\<exists>r. rule pf (get_field d f) d = Inr r" ..
  qed
  from validator_entries [OF this]
  obtain E where E: "createValidator S pf (Some d) = Inr E"
    and all: "\<forall>f m. E f = Some m \<longrightarrow>
        truthy m \<and> (\<exists>e rule. (f, e) \<in> set S \<and> rule \<in> set (concat_entry e)
                      \<and> rule pf (get_field d f) d = Inr m)"
    by (elim exE conjE)
  note entries = all [rule_format]
  have failing: "(\<exists>s. m = JStr s \<and> s \<noteq> [])
                 \<and> (\<exists>e rule. (f, e) \<in> set S \<and> rule \<in> set (concat_entry e)
                       \<and> rule pf (get_field d f) d = Inr m \<and> truthy m)"
    if "E f = Some m" for f m
  proof -
    from entries [OF that] obtain e rule where *: "truthy m" "(f, e) \<in> set S"
      "rule \<in> set (concat_entry e)" "rule pf (get_field d f) d = Inr m"
      by (elim exE conjE)
    from contract [OF *(2,3)] *(4) have "truthy m \<longrightarrow> (\<exists>s. m = JStr s)" by simp
    with *(1) obtain s where "m = JStr s" by (elim impE exE)
    with *(1) have msg: "\<exists>s. m = JStr s \<and> s \<noteq> []" by simp
    from * have "\<exists>e rule. (f, e) \<in> set S \<and> rule \<in> set (concat_entry e)
                       \<and> rule pf (get_field d f) d = Inr m \<and> truthy m"
      by (intro exI conjI)
    with msg show ?thesis ..
  qed
  have absent: "E f = None"
    if pass: "\<forall>e rule r. (f, e) \<in> set S \<longrightarrow> rule \<in> set (concat_entry e)
          \<longrightarrow> rule pf (get_field d f) d = Inr r \<longrightarrow> \<not> truthy r" for f
  proof (rule ccontr)
    assume "E f \<noteq> None"
    then obtain m where "E f = Some m" by (cases "E f") simp_all
    from entries [OF this] obtain e rule where *: "truthy m" "(f, e) \<in> set S"
      "rule \<in> set (concat_entry e)" "rule pf (get_field d f) d = Inr m"
      by (elim exE conjE)
    from pass [rule_format, OF *(2,3,4)] *(1) show False ..
  qed
  have "\<forall>f m. E f = Some m \<longrightarrow>
                 (\<exists>s. m = JStr s \<and> s \<noteq> [])
                 \<and> (\<exists>e rule. (f, e) \<in> set S \<and> rule \<in> set (concat_entry e)
                       \<and> rule pf (get_field d f) d = Inr m \<and> truthy m)"
    using failing by (intro allI impI)
  moreover have "\<forall>f. (\<forall>e rule r. (f, e) \<in> set S \<longrightarrow> rule \<in> set (concat_entry e)
                       \<longrightarrow> rule pf (get_field d f) d = Inr r \<longrightarrow> \<not> truthy r)
                 \<longrightarrow> E f = None"
    using absent by (intro allI impI)
  ultimately show ?thesis using E by (intro exI [of _ E] conjI)
qed

theorem errormap_sparse_witness:
  "\<exists>E. createValidator
          [(''name'', Many [valueRequired, minLength (num 3)]), (''bio'', Single (maxLength (num 5)))]
          (sample_env 0)
          (Some [''name'' \<mapsto> JStr ''ab'', ''bio'' \<mapsto> JStr ''hi'']) = Inr E
      \<and> E = [''name'' \<mapsto> JStr ''Value must contain at least 3 characters'']
      \<and> E ''bio'' = None
      \<and> (\<forall>f m. E f = Some m \<longrightarrow>
                 (\<exists>s. m = JStr s \<and> s \<noteq> [])
                 \<and> (\<exists>e rule. (f, e) \<in> set [(''name'', Many [valueRequired, minLength (num 3)]),
                                                (''bio'', Single (maxLength (num 5)))]
                       \<and> rule \<in> set (concat_entry e)
                       \<and> rule (sample_env 0)
                            (get_field [''name'' \<mapsto> JStr ''ab'', ''bio'' \<mapsto> JStr ''hi''] f)
                            [''name'' \<mapsto> JStr ''ab'', ''bio'' \<mapsto> JStr ''hi''] = Inr m
                       \<and> truthy m))"
proof -
  let ?S = "[(''name'', Many [valueRequired, minLength (num 3)]),
             (''bio'', Single (maxLength (num 5)))]"
  let ?d = "[''name'' \<mapsto> JStr ''ab'', ''bio'' \<mapsto> JStr ''hi'']"
  let ?pf = "sample_env 0"
  have h: "\<forall>(f, e)\<in>set ?S. \<forall>rule\<in>set (concat_entry e).
             \<exists>r. rule ?pf (get_field ?d f) ?d = Inr r \<and> (truthy r \<longrightarrow> (\<exists>s. r = JStr s))"
    by (simp add: get_field_def valueRequired_def minLength_def maxLength_def noValue_def
          show_simps)
  from errormap_sparse [OF h] obtain E where E: "createValidator ?S ?pf (Some ?d) = Inr E"
    and sparse: "\<forall>f m. E f = Some m \<longrightarrow>
                 (\<exists>s. m = JStr s \<and> s \<noteq> [])
                 \<and> (\<exists>e rule. (f, e) \<in> set ?S \<and> rule \<in> set (concat_entry e)
                       \<and> rule ?pf (get_field ?d f) ?d = Inr m \<and> truthy m)"
    by (elim exE conjE)
  have run: "createValidator ?S ?pf (Some ?d)
               = Inr [''name'' \<mapsto> JStr ''Value must contain at least 3 characters'']"
    by (simp add: createValidator_def join_Cons join_Nil get_field_def set_field_def
          valueRequired_def minLength_def maxLength_def noValue_def show_simps)
  with E have eq: "E = [''name'' \<mapsto> JStr ''Value must contain at least 3 characters'']"
    by simp
  then have "E ''bio'' = None" by simp
  with E eq sparse show ?thesis by (intro exI [of _ E] conjI)
qed

subsection \<open>C4: the guard on absent values\<close>

text \<open>
  C4 as stated fails in its last clause: \<open>valueRequired\<close> is not the only predicate of
  the library that reports an absent value. \<open>matches('secret')\<close> reports \<open>undefined\<close>
  and the empty string, \<open>isInFuture\<close> reports \<open>null\<close> (which reads as the epoch), and
  \<open>noLaterThan\<close> reports \<open>null\<close> against a later sibling date.
\<close>

theorem absent_value_reported_counterexample:
  "matches (JStr ''secret'') (sample_env 0) JUndefined Map.empty = Inr (JStr ''Values must match'')
   \<and> matches (JStr ''secret'') (sample_env 0) (JStr []) Map.empty
       = Inr (JStr ''Values must match'')
   \<and> isInFuture (sample_env 1577872800000) JNull Map.empty
       = Inr (JStr ''Please choose a date in the future'')
   \<and> noLaterThan ''start'' (sample_env 0) JNull [''start'' \<mapsto> JStr ''01/01/2020 10:00 am'']
       = Inr (JStr ''The end date must come after the start date'')"
  by (simp add: matches_def isInFuture_def noLaterThan_def sample_env_def sample_parse_def
        time_clip_def get_field_def)

text \<open>
  C4 (amended). On a value that is \<open>undefined\<close>, \<open>null\<close> or the empty string, each of
  \<open>minLength(n)\<close>, \<open>maxLength(n)\<close>, \<open>isEmail\<close>, \<open>containsTwoWords\<close>, \<open>isInteger\<close>,
  \<open>containsNumber\<close>, \<open>containsLowercase\<close>, \<open>containsUppercase\<close>,
  \<open>containsSpecialChar\<close> and \<open>isValidDate\<close> reports no error: the length predicates
  return \<open>undefined\<close>, the pattern predicates return the falsy value itself. On such a
  value \<open>valueRequired\<close> returns \<open>'Value Required'\<close>. Nothing is said of the other
  predicates of the library.
\<close>

theorem no_value_guard:
  assumes "noValue v"
  shows "minLength n pf v d = Inr JUndefined \<and> maxLength n pf v d = Inr JUndefined
       \<and> isEmail pf v d = Inr v \<and> containsTwoWords pf v d = Inr v \<and> isInteger pf v d = Inr v
       \<and> containsNumber pf v d = Inr v \<and> containsLowercase pf v d = Inr v
       \<and> containsUppercase pf v d = Inr v \<and> containsSpecialChar pf v d = Inr v
       \<and> isValidDate pf v d = Inr v \<and> \<not> truthy v
       \<and> valueRequired pf v d = Inr (JStr ''Value Required'')"
proof -
  from assms have "\<not> truthy v" by (auto simp: noValue_def)
  with assms show ?thesis by (simp add: pred_defs)
qed

theorem no_value_guard_witness:
  "minLength (num 3) (sample_env 0) (JStr []) Map.empty = Inr JUndefined
   \<and> isEmail (sample_env 0) JNull Map.empty = Inr JNull
   \<and> containsTwoWords (sample_env 0) JUndefined Map.empty = Inr JUndefined
   \<and> valueRequired (sample_env 0) (JStr []) Map.empty = Inr (JStr ''Value Required'')"
proof -
  have a: "noValue (JStr [])" and b: "noValue JNull" and c: "noValue JUndefined"
    by (simp_all add: noValue_def)
  from no_value_guard [OF a, of "num 3" "sample_env 0" Map.empty]
    no_value_guard [OF b, of "num 0" "sample_env 0" Map.empty]
    no_value_guard [OF c, of "num 0" "sample_env 0" Map.empty]
  show ?thesis by simp
qed

subsection \<open>C5: membership in an allowed set\<close>

text \<open>
  C5. \<open>oneOf(vs)(v)\<close> is to pass when \<open>v\<close> is among \<open>vs\<close> and to report the membership
  message otherwise. The code does the opposite: \<open>validateOneOf\<close> returns the message
  when \<open>isValid\<close> holds. With \<open>vs = ['a', 'b']\<close> the member \<open>'a'\<close> is reported and the
  non-member \<open>'c'\<close> passes.
\<close>

theorem oneOf_reports_members:
  "oneOf [JStr ''a'', JStr ''b''] (sample_env 0) (JStr ''a'') Map.empty
     = Inr (JStr ''Value must be one of: a, b'')
   \<and> oneOf [JStr ''a'', JStr ''b''] (sample_env 0) (JStr ''c'') Map.empty = Inr JNull"
  by (simp add: oneOf_def validateOneOf_def)

subsection \<open>C6: dates in the future\<close>

text \<open>
  C6 as stated fails. A value that parses to the current instant itself is not strictly
  after it, yet \<open>isInFuture\<close> returns \<open>null\<close>: the comparison is \<open>setDate < currentDate\<close>.
\<close>

theorem isInFuture_now_counterexample:
  "new_Date (sample_env 1577872800000) (JStr ''01/01/2020 10:00 am'') = Some 1577872800000
   \<and> clock (sample_env 1577872800000) = 1577872800000
   \<and> isInFuture (sample_env 1577872800000) (JStr ''01/01/2020 10:00 am'') Map.empty = Inr JNull"
  by (simp add: isInFuture_def sample_env_def sample_parse_def)

text \<open>
  C6 (amended). \<open>isInFuture(v)\<close> returns the message \<open>'Please choose a date in the future'\<close>
  if and only if \<open>v\<close> parses to a date strictly before the current instant; for a date
  equal to or after the current instant, and for a value that does not parse, it
  returns \<open>null\<close>.
\<close>

theorem isInFuture_past_only:
  "isInFuture pf v d =
     Inr (if \<exists>t. new_Date pf v = Some t \<and> t < clock pf
          then JStr ''Please choose a date in the future'' else JNull)"
  by (cases "new_Date pf v") (simp_all add: isInFuture_def)

theorem isInFuture_past_only_witness:
  "isInFuture (sample_env 1577872800000) (JStr ''01/01/2019 10:00 am'') Map.empty
     = Inr (JStr ''Please choose a date in the future'')
   \<and> isInFuture (sample_env 1546336800000) (JStr ''01/01/2020 10:00 am'') Map.empty = Inr JNull
   \<and> isInFuture (sample_env 1546336800000) (JStr ''tomorrow'') Map.empty = Inr JNull"
  using isInFuture_past_only [of "sample_env 1577872800000" "JStr ''01/01/2019 10:00 am''" Map.empty]
    isInFuture_past_only [of "sample_env 1546336800000" "JStr ''01/01/2020 10:00 am''" Map.empty]
    isInFuture_past_only [of "sample_env 1546336800000" "JStr ''tomorrow''" Map.empty]
  by (simp add: sample_env_def sample_parse_def)

subsection \<open>C7: no exception for string or absent values\<close>

text \<open>
  \<open>containsTwoWords\<close> calls \<open>toLowerCase\<close> on any truthy value, and a number, \<open>true\<close>
  or an inherited function has no such method.
\<close>

lemma containsTwoWords_throws:
  "containsTwoWords pf (JNum (num 5)) d = Inl TypeError
   \<and> containsTwoWords pf (JBool True) d = Inl TypeError
   \<and> containsTwoWords pf (JInherited ToString) d = Inl TypeError
   \<and> createValidator [(''name'', Single containsTwoWords)] pf (Some [''name'' \<mapsto> JNum (num 5)])
        = Inl TypeError"
  by (simp add: containsTwoWords_def createValidator_def join_def get_field_def int_of_num)

text \<open>
  C7 as stated fails. The empty record has only absent values, yet the library schema
  that binds the field \<open>toString\<close> to \<open>containsTwoWords\<close> makes the validator throw:
  the missing field is not passed as \<open>undefined\<close>, \<open>data['toString']\<close> is the function
  every object inherits.
\<close>

theorem inherited_field_throws_counterexample:
  "createValidator (library_schema [(''toString'', Single ContainsTwoWords)]) (sample_env 0)
     (Some Map.empty) = Inl TypeError"
  by (simp add: createValidator_def library_schema_def join_def get_field_def proto_lookup_def
        containsTwoWords_def)

text \<open>
  C7 (amended). For every schema written with the library and every record whose values
  are strings, \<open>undefined\<close> or \<open>null\<close>, provided that every schema field missing from
  the record is not named after a property inherited from \<open>Object.prototype\<close>, the
  validator returns an error map and does not throw; such a missing field reaches its
  rules as \<open>undefined\<close> (\<open>get_field_missing\<close>), and every entry of the map is a non-empty
  message string.
\<close>

theorem createValidator_never_throws:
  assumes "\<forall>v\<in>ran d. v = JUndefined \<or> v = JNull \<or> (\<exists>s. v = JStr s)"
    and "\<forall>(f, e)\<in>set S. d f = None \<longrightarrow> proto_lookup f = None"
  shows "\<exists>E. createValidator (library_schema S) pf (Some d) = Inr E
           \<and> (\<forall>f m. E f = Some m \<longrightarrow> (\<exists>s. m = JStr s \<and> s \<noteq> []))"
proof -
  let ?L = "library_schema S"
  have field: "get_field d f = JUndefined \<or> get_field d f = JNull \<or> (\<exists>s. get_field d f = JStr s)"
    if "(f, e) \<in> set S" for f e
  proof (cases "d f")
    case None
    with assms(2) that have "proto_lookup f = None" by fastforce
    with None show ?thesis by (simp add: get_field_def)
  next
    case (Some v)
    then have "v \<in> ran d" by (auto simp: ran_def)
    with assms(1) Some show ?thesis by (simp add: get_field_def)
  qed
  have "\<forall>(f, e)\<in>set ?L. \<forall>rule\<in>set (concat_entry e). \<exists>r. rule pf (get_field d f) d = Inr r"
  proof (intro ballI, unfold split_paired_all prod.case, intro ballI)
    fix f e rule
    assume "(f, e) \<in> set ?L" "rule \<in> set (concat_entry e)"
    then obtain e' p where "(f, e') \<in> set S" "rule = library_rule p"
      by (auto simp: library_schema_set concat_entry_map)
    with library_rule_returns [OF field, of f e' p pf d]
    show "\<exists>r. rule pf (get_field d f) d = Inr r" by simp
  qed
  from validator_entries [OF this]
  obtain E where E: "createValidator ?L pf (Some d) = Inr E"
    and all: "\<forall>f m. E f = Some m \<longrightarrow>
        truthy m \<and> (\<exists>e rule. (f, e) \<in> set ?L \<and> rule \<in> set (concat_entry e)
                      \<and> rule pf (get_field d f) d = Inr m)"
    by (elim exE conjE)
  note entries = all [rule_format]
  have "\<exists>s. m = JStr s \<and> s \<noteq> []" if "E f = Some m" for f m
  proof -
    from entries [OF that] obtain e rule where *: "truthy m" "(f, e) \<in> set ?L"
      "rule \<in> set (concat_entry e)" "rule pf (get_field d f) d = Inr m"
      by (elim exE conjE)
    from *(2,3) obtain p where "rule = library_rule p"
      by (auto simp: library_schema_set concat_entry_map)
    with *(4) have "library_rule p pf (get_field d f) d = Inr m" by simp
    from library_rule_message [OF this *(1)] show ?thesis .
  qed
  then have "\<forall>f m. E f = Some m \<longrightarrow> (\<exists>s. m = JStr s \<and> s \<noteq> [])"
    by (intro allI impI)
  with E show ?thesis by (intro exI [of _ E] conjI)
qed

theorem createValidator_never_throws_witness:
  "createValidator
     (library_schema
        [(''name'', Many [ValueRequired, ContainsTwoWords]),
         (''email'', Single IsEmail),
         (''toString'', Single ContainsTwoWords),
         (''start'', Many [ValueRequired, IsInFuture]),
         (''end'', Single (NoLaterThan ''start''))])
     (sample_env 1577872800000)
     (Some [''name'' \<mapsto> JStr ''Jo'', ''toString'' \<mapsto> JStr [],
            ''start'' \<mapsto> JStr ''01/01/2019 10:00 am'', ''end'' \<mapsto> JNull])
   = Inr [''name'' \<mapsto> JStr ''Must contain two words, i.e. full name.'',
          ''start'' \<mapsto> JStr ''Please choose a date in the future'',
          ''end'' \<mapsto> JStr ''The end date must come after the start date'']"
proof -
  let ?S = "[(''name'', Many [ValueRequired, ContainsTwoWords]),
         (''email'', Single IsEmail),
         (''toString'', Single ContainsTwoWords),
         (''start'', Many [ValueRequired, IsInFuture]),
         (''end'', Single (NoLaterThan ''start''))]"
  let ?d = "[''name'' \<mapsto> JStr ''Jo'', ''toString'' \<mapsto> JStr [],
             ''start'' \<mapsto> JStr ''01/01/2019 10:00 am'', ''end'' \<mapsto> JNull]"
  let ?pf = "sample_env 1577872800000"
  have h1: "\<forall>v\<in>ran ?d. v = JUndefined \<or> v = JNull \<or> (\<exists>s. v = JStr s)"
    by (auto simp: ran_def split: if_splits)
  have h2: "\<forall>(f, e)\<in>set ?S. ?d f = None \<longrightarrow> proto_lookup f = None"
    by (simp add: proto_lookup_def)
  from createValidator_never_throws [OF h1 h2, of ?pf]
  obtain E where E: "createValidator (library_schema ?S) ?pf (Some ?d) = Inr E"
    by (elim exE conjE)
  have two: "containsTwoWords pf (JStr ''Jo'') d
               = Inr (JStr ''Must contain two words, i.e. full name.'')"
    and none: "containsTwoWords pf (JStr []) d = Inr (JStr [])" for pf d
    by (simp_all add: containsTwoWords_def and_then_def validateWithRE_def re_test_def
          twoWordsRE_def name_word_def re_plus_def re_opt_def re_chr_def re_lower_def
          in_range_def lower_char_def)
  have "createValidator (library_schema ?S) ?pf (Some ?d)
   = Inr [''name'' \<mapsto> JStr ''Must contain two words, i.e. full name.'',
          ''start'' \<mapsto> JStr ''Please choose a date in the future'',
          ''end'' \<mapsto> JStr ''The end date must come after the start date'']"
    by (simp add: createValidator_def library_schema_def join_Cons join_Nil get_field_def two
          none set_field_def valueRequired_def noValue_def isEmail_def and_then_def
          isInFuture_def noLaterThan_def sample_env_def sample_parse_def time_clip_def
          proto_lookup_def)
  with E show ?thesis by simp
qed

subsection \<open>C8: determinism\<close>

text \<open>
  The validator reads its platform and its record only through its rules: two calls in
  which every rule of the schema returns the same result return the same result.
\<close>

lemma createValidator_cong:
  assumes "\<forall>(f, e)\<in>set S. \<forall>rule\<in>set (concat_entry e).
             rule pf' (get_field d' f) d' = rule pf (get_field d f) d"
  shows "createValidator S pf' (Some d') = createValidator S pf (Some d)"
proof -
  have "\<forall>(f, e)\<in>set S. join (concat_entry e) pf' (get_field d' f) d'
                          = join (concat_entry e) pf (get_field d f) d"
  proof (intro ballI, unfold split_paired_all prod.case)
    fix f e
    assume "(f, e) \<in> set S"
    with assms have "\<forall>rule\<in>set (concat_entry e).
        rule pf' (get_field d' f) d' = rule pf (get_field d f) d"
      by (auto dest: bspec)
    then show "join (concat_entry e) pf' (get_field d' f) d'
                 = join (concat_entry e) pf (get_field d f) d"
      by (rule join_cong)
  qed
  then show ?thesis by (simp add: createValidator_def forEach_key_cong)
qed

text \<open>The clock is read, by \<open>isInFuture\<close>, and so is every property of the record.\<close>

lemma validator_reads_clock_and_record:
  "createValidator (library_schema [(''start'', Single IsInFuture)]) (sample_env 1577872800000)
       (Some [''start'' \<mapsto> JStr ''01/01/2019 10:00 am''])
     \<noteq> createValidator (library_schema [(''start'', Single IsInFuture)]) (sample_env 0)
       (Some [''start'' \<mapsto> JStr ''01/01/2019 10:00 am''])
   \<and> createValidator (library_schema [(''name'', Single ValueRequired)]) (sample_env 0)
       (Some [''name'' \<mapsto> JStr ''Jo''])
     \<noteq> createValidator (library_schema [(''name'', Single ValueRequired)]) (sample_env 0)
       (Some Map.empty)"
proof -
  have "Map.empty \<noteq> [''name'' \<mapsto> JStr ''Value Required'']"
    by (metis map_upd_nonempty)
  then show ?thesis
    by (simp add: createValidator_def library_schema_def join_Cons join_Nil get_field_def
          set_field_def isInFuture_def valueRequired_def noValue_def sample_env_def
          sample_parse_def proto_lookup_def)
qed

text \<open>
  C8. Take the validator of a library schema and two calls of it, on the records \<open>d\<close>
  and \<open>d'\<close> and at the instants \<open>clock pf\<close> and \<open>t\<close> of one platform. If every property
  read gives the same value on both records (as it does on structurally equal ones),
  the two calls return the same result when they observe the same instant, and,
  whatever the two instants are, when no RuleSet of the schema contains \<open>isInFuture\<close>.
\<close>

theorem validator_deterministic:
  assumes "\<forall>k. get_field d' k = get_field d k"
    and "t = clock pf \<or> (\<forall>(f, e)\<in>set S. IsInFuture \<notin> set (concat_entry e))"
  shows "createValidator (library_schema S) (pf\<lparr>clock := t\<rparr>) (Some d')
           = createValidator (library_schema S) pf (Some d)"
proof (rule createValidator_cong, intro ballI, unfold split_paired_all prod.case, intro ballI)
  fix f e rule
  assume "(f, e) \<in> set (library_schema S)" "rule \<in> set (concat_entry e)"
  then obtain e' p where p: "(f, e') \<in> set S" "p \<in> set (concat_entry e')" "rule = library_rule p"
    by (auto simp: library_schema_set concat_entry_map)
  from assms(2) p(1,2) have "t = clock pf \<or> p \<noteq> IsInFuture" by fastforce
  from library_rule_agree [OF assms(1) this, of "get_field d f"] assms(1) p(3)
  show "rule (pf\<lparr>clock := t\<rparr>) (get_field d' f) d' = rule pf (get_field d f) d"
    by simp
qed

theorem validator_deterministic_witness:
  "createValidator
     (library_schema
        [(''name'', Many [ValueRequired, MinLength (num 3)]),
         (''end'', Single (NoLaterThan ''start''))])
     ((sample_env 0)\<lparr>clock := 1577872800000\<rparr>)
     (Some [''name'' \<mapsto> JStr ''ab'', ''nick'' \<mapsto> JUndefined])
   = createValidator
     (library_schema
        [(''name'', Many [ValueRequired, MinLength (num 3)]),
         (''end'', Single (NoLaterThan ''start''))])
     (sample_env 0)
     (Some [''name'' \<mapsto> JStr ''ab''])"
proof -
  let ?S = "[(''name'', Many [ValueRequired, MinLength (num 3)]),
             (''end'', Single (NoLaterThan ''start''))]"
  let ?d = "[''name'' \<mapsto> JStr ''ab'']"
  let ?d' = "[''name'' \<mapsto> JStr ''ab'', ''nick'' \<mapsto> JUndefined]"
  have h1: "\<forall>k. get_field ?d' k = get_field ?d k"
    by (simp add: get_field_def proto_lookup_def)
  have h2: "(1577872800000 :: int) = clock (sample_env 0)
              \<or> (\<forall>(f, e)\<in>set ?S. IsInFuture \<notin> set (concat_entry e))"
    by simp
  from validator_deterministic [OF h1 h2] show ?thesis .
qed

subsection \<open>C9: unparsable dates\<close>

text \<open>
  C9. When the value does not parse as a date, \<open>isInFuture\<close> returns \<open>null\<close>; when the
  value or the sibling field's value does not parse, \<open>noLaterThan(f)\<close> returns \<open>null\<close>.
\<close>

theorem unparsable_dates_pass:
  "(new_Date pf v = None \<longrightarrow> isInFuture pf v d = Inr JNull)
   \<and> (new_Date pf v = None \<or> new_Date pf (get_field d f) = None
        \<longrightarrow> noLaterThan f pf v d = Inr JNull)"
  by (cases "new_Date pf v"; cases "new_Date pf (get_field d f)")
     (simp_all add: isInFuture_def noLaterThan_def)

theorem unparsable_dates_pass_witness:
  "isInFuture (sample_env 1577872800000) (JStr ''tomorrow'') Map.empty = Inr JNull
   \<and> noLaterThan ''start'' (sample_env 0) (JStr ''tomorrow'')
        [''start'' \<mapsto> JStr ''01/01/2020 10:00 am''] = Inr JNull
   \<and> noLaterThan ''start'' (sample_env 0) (JStr ''01/01/2019 10:00 am'')
        [''start'' \<mapsto> JStr ''yesterday''] = Inr JNull"
proof -
  have a: "new_Date (sample_env 1577872800000) (JStr ''tomorrow'') = None"
    and a': "new_Date (sample_env 0) (JStr ''tomorrow'') = None"
    by (simp_all add: sample_env_def sample_parse_def)
  have b: "new_Date (sample_env 0) (get_field [''start'' \<mapsto> JStr ''yesterday''] ''start'') = None"
    by (simp add: sample_env_def sample_parse_def get_field_def)
  from unparsable_dates_pass [of "sample_env 1577872800000" "JStr ''tomorrow''" Map.empty
         "''start''"] a
  have 1: "isInFuture (sample_env 1577872800000) (JStr ''tomorrow'') Map.empty = Inr JNull"
    by blast
  from unparsable_dates_pass [of "sample_env 0" "JStr ''tomorrow''"
         "[''start'' \<mapsto> JStr ''01/01/2020 10:00 am'']" "''start''"] a'
  have 2: "noLaterThan ''start'' (sample_env 0) (JStr ''tomorrow'')
        [''start'' \<mapsto> JStr ''01/01/2020 10:00 am''] = Inr JNull"
    by blast
  from unparsable_dates_pass [of "sample_env 0" "JStr ''01/01/2019 10:00 am''"
         "[''start'' \<mapsto> JStr ''yesterday'']" "''start''"] b
  have 3: "noLaterThan ''start'' (sample_env 0) (JStr ''01/01/2019 10:00 am'')
        [''start'' \<mapsto> JStr ''yesterday''] = Inr JNull"
    by blast
  from 1 2 3 show ?thesis by simp
qed

subsection \<open>C10: the equality predicate has no guard\<close>

text \<open>
  C10. For every target \<open>m\<close> and every candidate \<open>v\<close> other than \<open>m\<close>, absent or not,
  \<open>matches(m)(v)\<close> returns \<open>'Values must match'\<close>; so a field whose only rule is
  \<open>matches(m)\<close> and whose value differs from \<open>m\<close> is reported by the validator, with no
  required-value rule in its RuleSet. (Under the field name \<open>__proto__\<close> the error
  object takes no entry, whatever the rule.)
\<close>

theorem matches_no_guard:
  assumes "m \<noteq> v"
  shows "matches m pf v d = Inr (JStr ''Values must match'')
       \<and> (get_field d f = v \<longrightarrow>
            createValidator [(f, Single (matches m))] pf (Some d)
              = Inr (if f = ''__proto__'' then Map.empty
                     else [f \<mapsto> JStr ''Values must match'']))"
  using assms by (simp add: matches_def createValidator_def join_Cons join_Nil set_field_def)

theorem matches_no_guard_witness:
  "matches (JStr ''secret'') (sample_env 0) JUndefined Map.empty = Inr (JStr ''Values must match'')
   \<and> matches (JStr ''secret'') (sample_env 0) (JStr []) Map.empty
       = Inr (JStr ''Values must match'')
   \<and> createValidator [(''confirm'', Single (matches (JStr ''secret'')))] (sample_env 0)
         (Some Map.empty)
       = Inr [''confirm'' \<mapsto> JStr ''Values must match'']"
proof -
  have a: "JStr ''secret'' \<noteq> JUndefined" and b: "JStr ''secret'' \<noteq> JStr []" by simp_all
  have c: "get_field Map.empty ''confirm'' = JUndefined"
    by (simp add: get_field_def proto_lookup_def)
  from matches_no_guard [OF a, of "sample_env 0" Map.empty "''confirm''"] c
    matches_no_guard [OF b, of "sample_env 0" Map.empty "''confirm''"]
  show ?thesis by simp
qed

end
